theory Spec2Isabelle
  imports Main
begin

section \<open>White Noise Pomodoro: the noise player and the interval timer\<close>

text \<open>
  A shallow embedding of \<^verbatim>\<open>white-noise-pomodoro.py\<close>: the class
  \<^verbatim>\<open>WhiteNoisePlayer\<close> (the audio engine) and the timer methods of
  \<^verbatim>\<open>PomodoroApp\<close>. Attributes become record fields, every method
  becomes a function that takes the state and returns the new state together with the
  exception it raised, if any. A Python method that raises keeps the attribute writes it
  made before the raise, so the state is returned in both cases.

  Two collaborators are outside the program and are modelled by their interface only:
  the \<^verbatim>\<open>sounddevice\<close> layer (any call into it may raise) and the Tk
  event loop (\<^verbatim>\<open>after\<close>, \<^verbatim>\<open>after_cancel\<close>, and the dispatch of
  a scheduled callback). The lock of the player serialises \<^verbatim>\<open>start\<close> and
  \<^verbatim>\<open>stop\<close>; the model is sequential, one method call at a time.
\<close>

subsection \<open>Constants\<close>

definition POMODORO_DURATION_SECONDS :: int where
  "POMODORO_DURATION_SECONDS = 25 * 60"

definition SHORT_BREAK_DURATION_SECONDS :: int where
  "SHORT_BREAK_DURATION_SECONDS = 5 * 60"

subsection \<open>The device layer\<close>

text \<open>
  The four calls the player makes into \<^verbatim>\<open>sounddevice\<close>: the constructor
  \<^verbatim>\<open>sd.OutputStream(...)\<close> and the methods \<^verbatim>\<open>start()\<close>,
  \<^verbatim>\<open>stop()\<close>, \<^verbatim>\<open>close()\<close> of the stream object.
\<close>

datatype dev_op = OpenStream | StartStream | StopStream | CloseStream

text \<open>The exception a failed device call raises, tagged with the call that raised it.\<close>

datatype error = PortAudioError dev_op

text \<open>
  The device is an oracle: \<open>faults d k\<close> says whether the \<open>k\<close>-th call into the
  device layer raises. \<open>history\<close> lists the calls made so far, newest first, so the
  index of the next call is its length.
\<close>

record device =
  faults :: "nat \<Rightarrow> bool"
  history :: "dev_op list"

definition dev_call :: "dev_op \<Rightarrow> device \<Rightarrow> bool \<times> device" where
  "dev_call op d = (faults d (length (history d)), d\<lparr>history := op # history d\<rparr>)"

subsection \<open>WhiteNoisePlayer\<close>

text \<open>
  \<^verbatim>\<open>_stream\<close> is \<^verbatim>\<open>None\<close> or an \<^verbatim>\<open>OutputStream\<close> object. The
  object is \<open>Opened\<close> once the constructor has returned and \<open>Active\<close> once its
  \<^verbatim>\<open>start()\<close> has returned.
\<close>

datatype stream_status = Opened | Active

record NoiseProfile =
  sample_rate :: int

definition WHITE_NOISE_PROFILE :: NoiseProfile where
  "WHITE_NOISE_PROFILE = \<lparr>sample_rate = 44100\<rparr>"

record WhiteNoisePlayer =
  profile :: NoiseProfile
  stream :: "stream_status option"

definition WhiteNoisePlayer_init :: "NoiseProfile \<Rightarrow> WhiteNoisePlayer" where
  "WhiteNoisePlayer_init pr = \<lparr>profile = pr, stream = None\<rparr>"

text \<open>
  \<^verbatim>\<open>WhiteNoisePlayer.start\<close>: the handle is assigned as soon as the constructor
  returns, before \<^verbatim>\<open>self._stream.start()\<close> is called.
\<close>

definition player_start ::
  "WhiteNoisePlayer \<Rightarrow> device \<Rightarrow> error option \<times> WhiteNoisePlayer \<times> device" where
  "player_start p d =
     (if stream p = None then
        (case dev_call OpenStream d of
           (True, d1) \<Rightarrow> (Some (PortAudioError OpenStream), p, d1)
         | (False, d1) \<Rightarrow>
             (let p1 = p\<lparr>stream := Some Opened\<rparr> in
              case dev_call StartStream d1 of
                (True, d2) \<Rightarrow> (Some (PortAudioError StartStream), p1, d2)
              | (False, d2) \<Rightarrow> (None, p1\<lparr>stream := Some Active\<rparr>, d2)))
      else (None, p, d))"

text \<open>
  \<^verbatim>\<open>WhiteNoisePlayer.stop\<close>: \<^verbatim>\<open>try: stop(); close()  finally: _stream = None\<close>.
  The \<^verbatim>\<open>finally\<close> clause runs on every path and the exception, if any, is
  raised again after it.
\<close>

definition player_stop ::
  "WhiteNoisePlayer \<Rightarrow> device \<Rightarrow> error option \<times> WhiteNoisePlayer \<times> device" where
  "player_stop p d =
     (case stream p of
        None \<Rightarrow> (None, p, d)
      | Some st \<Rightarrow>
          (case dev_call StopStream d of
             (True, d1) \<Rightarrow> (Some (PortAudioError StopStream), p\<lparr>stream := None\<rparr>, d1)
           | (False, d1) \<Rightarrow>
               (case dev_call CloseStream d1 of
                  (True, d2) \<Rightarrow> (Some (PortAudioError CloseStream), p\<lparr>stream := None\<rparr>, d2)
                | (False, d2) \<Rightarrow> (None, p\<lparr>stream := None\<rparr>, d2))))"

text \<open>
  Two player calls in a row, as Python runs \<^verbatim>\<open>f(); g()\<close>: the second call is
  made only if the first returned.
\<close>

definition then_call ::
  "(WhiteNoisePlayer \<Rightarrow> device \<Rightarrow> error option \<times> WhiteNoisePlayer \<times> device) \<Rightarrow>
   (WhiteNoisePlayer \<Rightarrow> device \<Rightarrow> error option \<times> WhiteNoisePlayer \<times> device) \<Rightarrow>
   WhiteNoisePlayer \<Rightarrow> device \<Rightarrow> error option \<times> WhiteNoisePlayer \<times> device" where
  "then_call f g p d =
     (case f p d of
        (Some e, p1, d1) \<Rightarrow> (Some e, p1, d1)
      | (None, p1, d1) \<Rightarrow> g p1 d1)"

subsection \<open>PomodoroApp\<close>

text \<open>
  The calls the timer makes on its collaborators, recorded newest first:
  \<^verbatim>\<open>noise_player.start()\<close>, \<^verbatim>\<open>noise_player.stop()\<close>,
  \<^verbatim>\<open>_play_ding_async()\<close>, \<^verbatim>\<open>root.after(1000, self._tick)\<close> and
  \<^verbatim>\<open>root.after_cancel(id)\<close>.
\<close>

datatype call = CallStart | CallStop | CallDing | CallAfter nat | CallAfterCancel nat

text \<open>
  The attributes of \<^verbatim>\<open>PomodoroApp\<close> that the timer reads and writes, and its
  environment: the device, the Tk callbacks that are scheduled and have not fired
  (\<open>pending\<close>, oldest first), the next callback identifier Tk hands out, the lines
  printed for a caught exception, and the record of calls.
\<close>

record PomodoroApp =
  timer_var :: string
  white_noise_var :: bool
  noise_player :: WhiteNoisePlayer
  remaining_seconds :: int
  timer_running :: bool
  timer_id :: "nat option"
  noise_desired :: bool
  device :: device
  pending :: "nat list"
  next_id :: nat
  printed :: "error list"
  calls :: "call list"

definition PomodoroApp_init :: "device \<Rightarrow> PomodoroApp" where
  "PomodoroApp_init d =
     \<lparr>timer_var = ''00:00'', white_noise_var = True,
      noise_player = WhiteNoisePlayer_init WHITE_NOISE_PROFILE,
      remaining_seconds = 0, timer_running = False, timer_id = None,
      noise_desired = False, device = d, pending = [], next_id = 0,
      printed = [], calls = []\<rparr>"

text \<open>\<^verbatim>\<open>self.noise_player.start()\<close> and \<^verbatim>\<open>self.noise_player.stop()\<close>.\<close>

definition noise_start :: "PomodoroApp \<Rightarrow> error option \<times> PomodoroApp" where
  "noise_start s =
     (case player_start (noise_player s) (device s) of
        (r, p, d) \<Rightarrow> (r, s\<lparr>noise_player := p, device := d, calls := CallStart # calls s\<rparr>))"

definition noise_stop :: "PomodoroApp \<Rightarrow> error option \<times> PomodoroApp" where
  "noise_stop s =
     (case player_stop (noise_player s) (device s) of
        (r, p, d) \<Rightarrow> (r, s\<lparr>noise_player := p, device := d, calls := CallStop # calls s\<rparr>))"

text \<open>\<^verbatim>\<open>root.after\<close> returns a fresh identifier; \<^verbatim>\<open>root.after_cancel\<close> unschedules.\<close>

definition after :: "PomodoroApp \<Rightarrow> nat \<times> PomodoroApp" where
  "after s =
     (next_id s,
      s\<lparr>pending := pending s @ [next_id s], next_id := Suc (next_id s),
        calls := CallAfter (next_id s) # calls s\<rparr>)"

definition after_cancel :: "nat \<Rightarrow> PomodoroApp \<Rightarrow> PomodoroApp" where
  "after_cancel i s =
     s\<lparr>pending := removeAll i (pending s), calls := CallAfterCancel i # calls s\<rparr>"

text \<open>The label: \<^verbatim>\<open>f"{minutes:02}:{seconds:02}"\<close> of \<^verbatim>\<open>divmod(max(remaining, 0), 60)\<close>.\<close>

definition digit_char :: "nat \<Rightarrow> char" where
  "digit_char n = ''0123456789'' ! (n mod 10)"

function decimal :: "nat \<Rightarrow> string" where
  "decimal n = (if n < 10 then [digit_char n] else decimal (n div 10) @ [digit_char n])"
  by pat_completeness auto
termination
  by (relation "measure (\<lambda>n. n)") auto

declare decimal.simps [simp del]

definition pad02 :: "nat \<Rightarrow> string" where
  "pad02 n = (if n < 10 then CHR ''0'' # decimal n else decimal n)"

definition update_timer_label :: "PomodoroApp \<Rightarrow> PomodoroApp" where
  "update_timer_label s =
     (let t = nat (max (remaining_seconds s) 0)
      in s\<lparr>timer_var := pad02 (t div 60) @ '':'' @ pad02 (t mod 60)\<rparr>)"

text \<open>\<^verbatim>\<open>_play_ding_async\<close> hands the chime to a new thread and returns.\<close>

definition play_ding_async :: "PomodoroApp \<Rightarrow> PomodoroApp" where
  "play_ding_async s = s\<lparr>calls := CallDing # calls s\<rparr>"

text \<open>
  \<^verbatim>\<open>_sync_noise_state\<close>: the call of \<^verbatim>\<open>start\<close> is guarded by
  \<^verbatim>\<open>except Exception\<close>, which prints; the call of \<^verbatim>\<open>stop\<close> is not.
\<close>

definition sync_noise_state :: "PomodoroApp \<Rightarrow> error option \<times> PomodoroApp" where
  "sync_noise_state s =
     (if timer_running s \<and> noise_desired s \<and> white_noise_var s then
        (case noise_start s of
           (Some e, s1) \<Rightarrow> (None, s1\<lparr>printed := e # printed s1\<rparr>)
         | (None, s1) \<Rightarrow> (None, s1))
      else noise_stop s)"

definition on_noise_toggle :: "PomodoroApp \<Rightarrow> error option \<times> PomodoroApp" where
  "on_noise_toggle s = sync_noise_state s"

definition stop_timer_internal :: "PomodoroApp \<Rightarrow> error option \<times> PomodoroApp" where
  "stop_timer_internal s =
     (let s1 = s\<lparr>timer_running := False, noise_desired := False\<rparr>;
          s2 = (case timer_id s1 of
                  None \<Rightarrow> s1
                | Some i \<Rightarrow> (after_cancel i s1)\<lparr>timer_id := None\<rparr>)
      in case noise_stop s2 of
           (Some e, s3) \<Rightarrow> (Some e, s3)
         | (None, s3) \<Rightarrow> (None, update_timer_label (s3\<lparr>remaining_seconds := 0\<rparr>)))"

definition start_timer :: "int \<Rightarrow> bool \<Rightarrow> PomodoroApp \<Rightarrow> error option \<times> PomodoroApp" where
  "start_timer duration_seconds wants_noise s =
     (case stop_timer_internal s of
        (Some e, s1) \<Rightarrow> (Some e, s1)
      | (None, s1) \<Rightarrow>
          (let s2 = update_timer_label
                      (s1\<lparr>remaining_seconds := duration_seconds, timer_running := True,
                          noise_desired := wants_noise\<rparr>)
           in case sync_noise_state s2 of
                (Some e, s3) \<Rightarrow> (Some e, s3)
              | (None, s3) \<Rightarrow>
                  (case after s3 of (i, s4) \<Rightarrow> (None, s4\<lparr>timer_id := Some i\<rparr>))))"

definition start_pomodoro :: "PomodoroApp \<Rightarrow> error option \<times> PomodoroApp" where
  "start_pomodoro s = start_timer POMODORO_DURATION_SECONDS True s"

definition start_break :: "PomodoroApp \<Rightarrow> error option \<times> PomodoroApp" where
  "start_break s = start_timer SHORT_BREAK_DURATION_SECONDS False s"

definition tick :: "PomodoroApp \<Rightarrow> error option \<times> PomodoroApp" where
  "tick s =
     (if \<not> timer_running s then (None, s)
      else
        (let s1 = update_timer_label (s\<lparr>remaining_seconds := remaining_seconds s - 1\<rparr>)
         in if remaining_seconds s1 \<le> 0 then
              (case noise_stop (s1\<lparr>timer_running := False, timer_id := None,
                                   noise_desired := False\<rparr>) of
                 (Some e, s2) \<Rightarrow> (Some e, s2)
               | (None, s2) \<Rightarrow> (None, play_ding_async s2))
            else (case after s1 of (i, s2) \<Rightarrow> (None, s2\<lparr>timer_id := Some i\<rparr>))))"

subsection \<open>The event loop\<close>

text \<open>
  Tk runs one handler at a time. A scheduled callback leaves \<open>pending\<close> when it fires;
  every callback this program schedules is \<^verbatim>\<open>_tick\<close>. The check button writes
  \<^verbatim>\<open>white_noise_var\<close> and then calls \<^verbatim>\<open>on_noise_toggle\<close>. An exception
  that leaves a handler is reported by Tk and the loop goes on with the state the
  handler left.
\<close>

definition fire :: "PomodoroApp \<Rightarrow> error option \<times> PomodoroApp" where
  "fire s = (case pending s of [] \<Rightarrow> (None, s) | i # rest \<Rightarrow> tick (s\<lparr>pending := rest\<rparr>))"

definition toggle :: "bool \<Rightarrow> PomodoroApp \<Rightarrow> error option \<times> PomodoroApp" where
  "toggle b s = on_noise_toggle (s\<lparr>white_noise_var := b\<rparr>)"

datatype event = Tick | Toggle bool

fun handle :: "event \<Rightarrow> PomodoroApp \<Rightarrow> PomodoroApp" where
  "handle Tick s = snd (fire s)"
| "handle (Toggle b) s = snd (toggle b s)"

fun run_events :: "event list \<Rightarrow> PomodoroApp \<Rightarrow> PomodoroApp" where
  "run_events [] s = s"
| "run_events (e # es) s = run_events es (handle e s)"

fun run_ticks :: "nat \<Rightarrow> PomodoroApp \<Rightarrow> PomodoroApp" where
  "run_ticks 0 s = s"
| "run_ticks (Suc n) s = run_ticks n (snd (fire s))"

text \<open>How often a call occurs in the record of calls.\<close>

definition times :: "call \<Rightarrow> PomodoroApp \<Rightarrow> nat" where
  "times c s = count_list (calls s) c"

text \<open>
  \<^verbatim>\<open>_stop_timer_internal\<close> up to its call of \<^verbatim>\<open>noise_player.stop()\<close>: the
  two flags cleared and the scheduled tick, if any, cancelled.
\<close>

definition cancelled :: "PomodoroApp \<Rightarrow> PomodoroApp" where
  "cancelled s =
     (let s1 = s\<lparr>timer_running := False, noise_desired := False\<rparr>
      in case timer_id s1 of
           None \<Rightarrow> s1
         | Some i \<Rightarrow> (after_cancel i s1)\<lparr>timer_id := None\<rparr>)"

subsection \<open>Example states\<close>

text \<open>A device on which no call fails, and one on which exactly the \<open>n\<close>-th call fails.\<close>

definition quiet_device :: device where
  "quiet_device = \<lparr>faults = (\<lambda>k. False), history = []\<rparr>"

definition faulty_device :: "nat \<Rightarrow> device" where
  "faulty_device n = \<lparr>faults = (\<lambda>k. k = n), history = []\<rparr>"

text \<open>A player whose stream is open and started.\<close>

definition playing :: WhiteNoisePlayer where
  "playing = \<lparr>profile = WHITE_NOISE_PROFILE, stream = Some Active\<rparr>"

text \<open>A Work interval with \<open>r\<close> seconds left, noise playing and the next tick scheduled.\<close>

definition mid_interval :: "int \<Rightarrow> device \<Rightarrow> PomodoroApp" where
  "mid_interval r d =
     update_timer_label
       ((PomodoroApp_init d)
          \<lparr>noise_player := playing, remaining_seconds := r, timer_running := True,
           timer_id := Some 0, noise_desired := True, pending := [0], next_id := 1,
           calls := [CallAfter 0, CallStart, CallStop]\<rparr>)"

text \<open>
  The invariant of an interval that wants no noise: \<^verbatim>\<open>noise_desired\<close> is
  false, the player holds no stream, and \<^verbatim>\<open>noise_player.start()\<close> has been called
  \<open>n\<close> times so far.
\<close>

definition silent :: "nat \<Rightarrow> PomodoroApp \<Rightarrow> bool" where
  "silent n s \<longleftrightarrow> \<not> noise_desired s \<and> stream (noise_player s) = None \<and> times CallStart s = n"

section \<open>Properties\<close>

subsection \<open>The player\<close>

lemma player_stop_clears: "stream (fst (snd (player_stop p d))) = None"
  by (simp add: player_stop_def dev_call_def split: option.splits bool.splits)

lemma player_start_noop: "stream p \<noteq> None \<Longrightarrow> player_start p d = (None, p, d)"
  by (auto simp: player_start_def)

lemma player_start_ok:
  "stream p = None \<Longrightarrow> \<not> faults d (length (history d)) \<Longrightarrow> \<not> faults d (Suc (length (history d)))
   \<Longrightarrow> player_start p d = (None, p\<lparr>stream := Some Active\<rparr>, d\<lparr>history := StartStream # OpenStream # history d\<rparr>)"
  by (simp add: player_start_def dev_call_def)

lemma player_start_returned: "fst (player_start p d) = None \<Longrightarrow> stream (fst (snd (player_start p d))) \<noteq> None"
  by (cases "stream p") (auto simp: player_start_def dev_call_def Let_def split: bool.splits if_splits)

lemma player_start_keeps_active:
  "stream p = None \<or> stream p = Some Active \<Longrightarrow> fst (player_start p d) = None \<Longrightarrow>
   stream (fst (snd (player_start p d))) = Some Active"
  by (cases "stream p") (auto simp: player_start_def dev_call_def Let_def split: bool.splits if_splits)

lemma player_start_twice: "then_call player_start player_start p d = player_start p d"
  by (cases "stream p") (auto simp: then_call_def player_start_def dev_call_def Let_def split: bool.splits)

lemma player_start_open_fails:
  "stream p = None \<Longrightarrow> faults d (length (history d)) \<Longrightarrow>
   player_start p d = (Some (PortAudioError OpenStream), p, d\<lparr>history := OpenStream # history d\<rparr>)"
  by (simp add: player_start_def dev_call_def)

lemma sync_noise_state_guard:
  "timer_running s \<Longrightarrow> noise_desired s \<Longrightarrow> white_noise_var s \<Longrightarrow> fst (sync_noise_state s) = None"
  by (simp add: sync_noise_state_def split: prod.splits option.splits)

subsection \<open>Single handlers\<close>

lemma player_stop_cases:
  obtains (idle) "stream p = None" "player_stop p d = (None, p, d)"
  | (raised) e d' where "stream p \<noteq> None" "player_stop p d = (Some e, p\<lparr>stream := None\<rparr>, d')"
  | (stopped) "stream p \<noteq> None" 
      "player_stop p d = (None, p\<lparr>stream := None\<rparr>, d\<lparr>history := CloseStream # StopStream # history d\<rparr>)"
      "\<not> faults d (length (history d))" "\<not> faults d (Suc (length (history d)))"
  by (cases "stream p"; cases "faults d (length (history d))"; cases "faults d (Suc (length (history d)))")
     (auto simp: player_stop_def dev_call_def)

lemma player_stop_returns:
  "stream p = None \<or> (\<not> faults d (length (history d)) \<and> \<not> faults d (Suc (length (history d))))
   \<Longrightarrow> fst (player_stop p d) = None"
  by (cases "stream p") (auto simp: player_stop_def dev_call_def)

lemma noise_stop_fields:
  assumes "noise_stop s = (r, s')"
  shows "stream (noise_player s') = None" "calls s' = CallStop # calls s"
    "timer_running s' = timer_running s" "noise_desired s' = noise_desired s"
    "timer_id s' = timer_id s" "pending s' = pending s" "next_id s' = next_id s"
    "remaining_seconds s' = remaining_seconds s" "timer_var s' = timer_var s"
    "white_noise_var s' = white_noise_var s" "printed s' = printed s"
  using assms by (cases rule: player_stop_cases[of "noise_player s" "device s"]; auto simp: noise_stop_def)+

lemma noise_stop_returns:
  "stream (noise_player s) = None \<or>
     (\<not> faults (device s) (length (history (device s))) \<and>
      \<not> faults (device s) (Suc (length (history (device s)))))
   \<Longrightarrow> fst (noise_stop s) = None"
  using player_stop_returns[of "noise_player s" "device s"]
  by (auto simp: noise_stop_def split: prod.splits)

lemma label_zero: "timer_var (update_timer_label (s\<lparr>remaining_seconds := 0\<rparr>)) = ''00:00''"
  by (simp add: update_timer_label_def pad02_def decimal.simps digit_char_def)

lemma update_timer_label_fields [simp]:
  "white_noise_var (update_timer_label s) = white_noise_var s"
  "noise_player (update_timer_label s) = noise_player s"
  "remaining_seconds (update_timer_label s) = remaining_seconds s"
  "timer_running (update_timer_label s) = timer_running s"
  "timer_id (update_timer_label s) = timer_id s"
  "noise_desired (update_timer_label s) = noise_desired s"
  "device (update_timer_label s) = device s"
  "pending (update_timer_label s) = pending s"
  "next_id (update_timer_label s) = next_id s"
  "printed (update_timer_label s) = printed s"
  "calls (update_timer_label s) = calls s"
  by (simp_all add: update_timer_label_def Let_def)

lemma times_simps [simp]:
  "times c (s\<lparr>calls := cs\<rparr>) = count_list cs c"
  by (simp add: times_def)

lemma after_cancel_fields [simp]:
  "pending (after_cancel i s) = removeAll i (pending s)"
  "calls (after_cancel i s) = CallAfterCancel i # calls s"
  "noise_player (after_cancel i s) = noise_player s"
  "device (after_cancel i s) = device s"
  "timer_running (after_cancel i s) = timer_running s"
  "noise_desired (after_cancel i s) = noise_desired s"
  "remaining_seconds (after_cancel i s) = remaining_seconds s"
  "white_noise_var (after_cancel i s) = white_noise_var s"
  "next_id (after_cancel i s) = next_id s"
  "printed (after_cancel i s) = printed s"
  by (simp_all add: after_cancel_def)

lemma cancelled_fields:
  "\<not> timer_running (cancelled s)" "\<not> noise_desired (cancelled s)" "timer_id (cancelled s) = None"
  "noise_player (cancelled s) = noise_player s" "device (cancelled s) = device s"
  "white_noise_var (cancelled s) = white_noise_var s" "next_id (cancelled s) = next_id s"
  "printed (cancelled s) = printed s"
  "times CallStop (cancelled s) = times CallStop s"
  "times CallStart (cancelled s) = times CallStart s"
  "times CallDing (cancelled s) = times CallDing s"
  "pending (cancelled s) = (case timer_id s of None \<Rightarrow> pending s | Some i \<Rightarrow> removeAll i (pending s))"
  by (simp_all add: cancelled_def times_def Let_def split: option.splits)

lemma stop_timer_internal_unfold:
  "stop_timer_internal s =
     (case noise_stop (cancelled s) of
        (Some e, s3) \<Rightarrow> (Some e, s3)
      | (None, s3) \<Rightarrow> (None, update_timer_label (s3\<lparr>remaining_seconds := 0\<rparr>)))"
  by (simp add: stop_timer_internal_def cancelled_def Let_def)

subsection \<open>An interval that wants no noise stays silent\<close>

lemma after_fields [simp]:
  "fst (after s) = next_id s"
  "pending (snd (after s)) = pending s @ [next_id s]"
  "next_id (snd (after s)) = Suc (next_id s)"
  "calls (snd (after s)) = CallAfter (next_id s) # calls s"
  "noise_player (snd (after s)) = noise_player s"
  "device (snd (after s)) = device s"
  "timer_running (snd (after s)) = timer_running s"
  "noise_desired (snd (after s)) = noise_desired s"
  "remaining_seconds (snd (after s)) = remaining_seconds s"
  "white_noise_var (snd (after s)) = white_noise_var s"
  "timer_id (snd (after s)) = timer_id s"
  "timer_var (snd (after s)) = timer_var s"
  "printed (snd (after s)) = printed s"
  by (simp_all add: after_def)

lemma noise_stop_silent:
  assumes "\<not> noise_desired s" "times CallStart s = n"
  shows "silent n (snd (noise_stop s))"
proof -
  obtain r s' where ns: "noise_stop s = (r, s')" by (cases "noise_stop s")
  from noise_stop_fields[OF ns] assms show ?thesis by (simp add: ns silent_def times_def)
qed

lemma sync_silent:
  assumes "\<not> noise_desired s" "times CallStart s = n"
  shows "silent n (snd (sync_noise_state s))"
  using noise_stop_silent[OF assms] assms(1) by (simp add: sync_noise_state_def)

lemma tick_silent:
  assumes "silent n s"
  shows "silent n (snd (tick s))"
proof (cases "timer_running s")
  case False
  then show ?thesis using assms by (simp add: tick_def)
next
  case True
  let ?s1 = "update_timer_label (s\<lparr>remaining_seconds := remaining_seconds s - 1\<rparr>)"
  show ?thesis
  proof (cases "remaining_seconds s - 1 \<le> 0")
    case expired: True
    let ?s2 = "?s1\<lparr>timer_running := False, timer_id := None, noise_desired := False\<rparr>"
    obtain r s3 where ns: "noise_stop ?s2 = (r, s3)" by (cases "noise_stop ?s2")
    have q: "silent n s3"
      using noise_stop_silent[of ?s2 n] assms ns by (simp add: silent_def times_def)
    have "snd (tick s) = (if r = None then play_ding_async s3 else s3)"
      using True expired ns by (cases r) (simp_all add: tick_def Let_def)
    then show ?thesis using q by (simp add: silent_def play_ding_async_def times_def)
  next
    case False
    then have "snd (tick s) = (snd (after ?s1))\<lparr>timer_id := Some (next_id s)\<rparr>"
      using True by (simp add: tick_def Let_def split: prod.splits) (simp add: after_def)
    then show ?thesis using assms by (simp add: silent_def times_def)
  qed
qed

lemma handle_silent: "silent n s \<Longrightarrow> silent n (handle e s)"
proof (cases e)
  case Tick
  assume q: "silent n s"
  show ?thesis
  proof (cases "pending s")
    case Nil
    then show ?thesis using q Tick by (simp add: fire_def)
  next
    case (Cons i rest)
    have "silent n (s\<lparr>pending := rest\<rparr>)" using q by (simp add: silent_def times_def)
    from tick_silent[OF this] show ?thesis using Tick Cons by (simp add: fire_def)
  qed
next
  case (Toggle b)
  assume q: "silent n s"
  have "silent n (snd (sync_noise_state (s\<lparr>white_noise_var := b\<rparr>)))"
    using q by (intro sync_silent) (simp_all add: silent_def times_def)
  then show ?thesis using Toggle by (simp add: toggle_def on_noise_toggle_def)
qed

lemma run_events_silent: "silent n s \<Longrightarrow> silent n (run_events es s)"
  by (induction es arbitrary: s) (simp_all add: handle_silent)

lemma start_break_silent: "silent (times CallStart s) (snd (start_break s))"
proof -
  obtain r s1 where st: "stop_timer_internal s = (r, s1)" by (cases "stop_timer_internal s")
  obtain r0 s3 where ns: "noise_stop (cancelled s) = (r0, s3)"
    by (cases "noise_stop (cancelled s)")
  have q0: "silent (times CallStart s) s3"
    using noise_stop_silent[of "cancelled s" "times CallStart s"] ns by (simp add: cancelled_fields)
  have s1: "s1 = (if r0 = None then update_timer_label (s3\<lparr>remaining_seconds := 0\<rparr>) else s3)" and r: "r = r0"
    using ns st by (cases r0; auto simp: stop_timer_internal_unfold)+
  have q1: "silent (times CallStart s) s1" using q0 s1 by (simp add: silent_def times_def)
  show ?thesis
  proof (cases r)
    case (Some e)
    then show ?thesis using q1 st by (simp add: start_break_def start_timer_def)
  next
    case None
    let ?s2 = "update_timer_label (s1\<lparr>remaining_seconds := SHORT_BREAK_DURATION_SECONDS,
                   timer_running := True, noise_desired := False\<rparr>)"
    have q2: "silent (times CallStart s) (snd (sync_noise_state ?s2))"
      using q1 by (intro sync_silent) (simp_all add: silent_def times_def)
    obtain r3 s4 where sy: "sync_noise_state ?s2 = (r3, s4)" by (cases "sync_noise_state ?s2")
    have "snd (start_break s) = (if r3 = None then (snd (after s4))\<lparr>timer_id := Some (next_id s4)\<rparr> else s4)"
      using None st sy by (cases r3) (simp_all add: start_break_def start_timer_def Let_def split: prod.splits, simp add: after_def)
    then show ?thesis using q2 sy by (simp add: silent_def times_def)
  qed
qed

subsection \<open>Counting down\<close>

lemma noise_stop_device:
  assumes "noise_stop s = (r, s')"
  shows "faults (device s') = faults (device s)"
  using assms
  by (auto simp: noise_stop_def player_stop_def dev_call_def split: option.splits bool.splits prod.splits if_splits)

lemma noise_stop_history:
  assumes "noise_stop s = (r, s')"
  shows "history (device s') =
           (if stream (noise_player s) = None then history (device s)
            else if faults (device s) (length (history (device s)))
              then StopStream # history (device s)
              else CloseStream # StopStream # history (device s))"
    and "stream (noise_player s) \<noteq> None \<Longrightarrow>
           \<not> faults (device s) (length (history (device s))) \<Longrightarrow>
           \<not> faults (device s) (Suc (length (history (device s)))) \<Longrightarrow> r = None"
  using assms
  by (auto simp: noise_stop_def player_stop_def dev_call_def
      split: option.splits bool.splits prod.splits if_splits)

lemma noise_stop_idle:
  "stream (noise_player s) = None \<Longrightarrow> noise_stop s = (None, s\<lparr>calls := CallStop # calls s\<rparr>)"
  by (simp add: noise_stop_def player_stop_def)

lemma tick_continue:
  assumes "timer_running s" "1 < remaining_seconds s"
  shows "tick s = (None, (snd (after (update_timer_label (s\<lparr>remaining_seconds := remaining_seconds s - 1\<rparr>))))
                      \<lparr>timer_id := Some (next_id s)\<rparr>)"
  using assms by (simp add: tick_def Let_def split: prod.splits) (simp add: after_def)

lemma tick_expire:
  assumes "timer_running s" "remaining_seconds s \<le> 1"
    "noise_stop ((update_timer_label (s\<lparr>remaining_seconds := remaining_seconds s - 1\<rparr>))
        \<lparr>timer_running := False, timer_id := None, noise_desired := False\<rparr>) = (r, s2)"
  shows "tick s = (r, if r = None then play_ding_async s2 else s2)"
  using assms by (cases r) (simp_all add: tick_def Let_def)

lemma tick_step:
  assumes "timer_running s" "tick s = (r, s')"
  shows "remaining_seconds s' = remaining_seconds s - 1 \<and>
         (remaining_seconds s - 1 \<le> 0 \<longrightarrow>
            \<not> timer_running s' \<and> \<not> noise_desired s' \<and> timer_id s' = None \<and>
            stream (noise_player s') = None \<and>
            times CallStop s' = Suc (times CallStop s) \<and>
            times CallDing s' = (if r = None then Suc (times CallDing s) else times CallDing s) \<and>
            pending s' = pending s \<and> next_id s' = next_id s) \<and>
         (0 < remaining_seconds s - 1 \<longrightarrow>
            r = None \<and> timer_running s' \<and> timer_id s' = Some (next_id s) \<and>
            pending s' = pending s @ [next_id s] \<and>
            times CallStop s' = times CallStop s \<and> times CallDing s' = times CallDing s \<and>
            noise_player s' = noise_player s \<and> noise_desired s' = noise_desired s)"
proof (cases "1 < remaining_seconds s")
  case True
  from tick_continue[OF assms(1) True] assms True show ?thesis
    by (auto simp: times_def)
next
  case False
  let ?s1 = "(update_timer_label (s\<lparr>remaining_seconds := remaining_seconds s - 1\<rparr>))
        \<lparr>timer_running := False, timer_id := None, noise_desired := False\<rparr>"
  obtain r2 s2 where ns: "noise_stop ?s1 = (r2, s2)" by (cases "noise_stop ?s1")
  from False have le: "remaining_seconds s \<le> 1" by simp
  from tick_expire[OF assms(1) le ns] assms(2)
  have r: "r = r2" and s': "s' = (if r2 = None then play_ding_async s2 else s2)" by simp_all
  from noise_stop_fields[OF ns] r s' le show ?thesis
    by (simp add: times_def play_ding_async_def)
qed


lemma run_ticks_snoc: "run_ticks (Suc n) s = snd (fire (run_ticks n s))"
  by (induction n arbitrary: s) simp_all

lemma fire_single: "pending s = [i] \<Longrightarrow> fire s = tick (s\<lparr>pending := []\<rparr>)"
  by (simp add: fire_def)

lemma run_ticks_countdown:
  assumes "timer_running s" "pending s = [i]" "remaining_seconds s = int k + m" "0 < m"
  shows "timer_running (run_ticks k s) \<and> (\<exists>j. pending (run_ticks k s) = [j]) \<and>
         remaining_seconds (run_ticks k s) = m \<and>
         times CallStop (run_ticks k s) = times CallStop s \<and>
         times CallDing (run_ticks k s) = times CallDing s \<and>
         times CallStart (run_ticks k s) = times CallStart s \<and>
         noise_player (run_ticks k s) = noise_player s \<and>
         device (run_ticks k s) = device s"
  using assms
proof (induction k arbitrary: s i)
  case 0
  then show ?case by simp
next
  case (Suc k)
  let ?s0 = "s\<lparr>pending := []\<rparr>"
  let ?s1 = "(snd (after (update_timer_label (?s0\<lparr>remaining_seconds := remaining_seconds ?s0 - 1\<rparr>))))
                      \<lparr>timer_id := Some (next_id ?s0)\<rparr>"
  have run: "timer_running ?s0" and big: "1 < remaining_seconds ?s0"
    using Suc.prems by simp_all
  have f: "snd (fire s) = ?s1"
    using fire_single[OF Suc.prems(2)] tick_continue[OF run big] by simp
  have "timer_running ?s1" "pending ?s1 = [next_id s]" "remaining_seconds ?s1 = int k + m"
    using Suc.prems by simp_all
  from Suc.IH[OF this Suc.prems(4)] show ?case
    by (simp add: f times_def)
qed

lemma stop_timer_internal_result:
  "noise_stop (cancelled s) = (r0, s3) \<Longrightarrow>
   stop_timer_internal s = (r0, if r0 = None then update_timer_label (s3\<lparr>remaining_seconds := 0\<rparr>) else s3)"
  by (cases r0) (simp_all add: stop_timer_internal_unfold)

lemma noise_start_ok:
  assumes "stream (noise_player s) = None" "\<forall>k. \<not> faults (device s) k"
  shows "noise_start s =
           (None, s\<lparr>noise_player := (noise_player s)\<lparr>stream := Some Active\<rparr>,
                     device := (device s)\<lparr>history := StartStream # OpenStream # history (device s)\<rparr>,
                     calls := CallStart # calls s\<rparr>)"
  using assms by (simp add: noise_start_def player_start_def dev_call_def)

lemma pending_cancelled:
  "set (pending s) \<subseteq> set_option (timer_id s) \<Longrightarrow> pending (cancelled s) = []"
proof (cases "timer_id s")
  case None
  assume "set (pending s) \<subseteq> set_option (timer_id s)"
  with None show ?thesis by (simp add: cancelled_fields)
next
  case (Some a)
  assume "set (pending s) \<subseteq> set_option (timer_id s)"
  with Some have "\<forall>x \<in> set (pending s). x = a" by auto
  then have "removeAll a (pending s) = []"
    by (induction "pending s") (auto simp: removeAll_filter_not_eq filter_empty_conv)
  with Some show ?thesis by (simp add: cancelled_fields)
qed

lemma start_timer_result:
  assumes "stop_timer_internal s = (None, s1)"
    "sync_noise_state (update_timer_label (s1\<lparr>remaining_seconds := n, timer_running := True,
                          noise_desired := w\<rparr>)) = (None, s3)"
  shows "start_timer n w s = (None, (snd (after s3))\<lparr>timer_id := Some (next_id s3)\<rparr>)"
  using assms by (simp add: start_timer_def Let_def split: prod.splits) (simp add: after_def)

lemma start_timer_ok:
  assumes wf: "set (pending s) \<subseteq> set_option (timer_id s)"
      and ok: "\<forall>k. \<not> faults (device s) k"
  shows "fst (start_timer n w s) = None \<and>
         timer_running (snd (start_timer n w s)) \<and>
         remaining_seconds (snd (start_timer n w s)) = n \<and>
         pending (snd (start_timer n w s)) = [next_id s] \<and>
         timer_id (snd (start_timer n w s)) = Some (next_id s) \<and>
         noise_desired (snd (start_timer n w s)) = w \<and>
         white_noise_var (snd (start_timer n w s)) = white_noise_var s \<and>
         faults (device (snd (start_timer n w s))) = faults (device s) \<and>
         stream (noise_player (snd (start_timer n w s))) =
           (if w \<and> white_noise_var s then Some Active else None) \<and>
         times CallStop (snd (start_timer n w s)) =
           times CallStop s + (if w \<and> white_noise_var s then 1 else 2) \<and>
         times CallStart (snd (start_timer n w s)) =
           times CallStart s + (if w \<and> white_noise_var s then 1 else 0) \<and>
         times CallDing (snd (start_timer n w s)) = times CallDing s"
proof -
  obtain r0 s3 where ns: "noise_stop (cancelled s) = (r0, s3)"
    by (cases "noise_stop (cancelled s)")
  have r0: "r0 = None"
    using noise_stop_returns[of "cancelled s"] ok ns by (simp add: cancelled_fields)
  note f3 = noise_stop_fields[OF ns] noise_stop_device[OF ns] cancelled_fields[of s]
  let ?s1 = "update_timer_label (s3\<lparr>remaining_seconds := 0\<rparr>)"
  have st: "stop_timer_internal s = (None, ?s1)"
    using stop_timer_internal_result[OF ns] r0 by simp
  let ?s2 = "update_timer_label (?s1\<lparr>remaining_seconds := n, timer_running := True,
                          noise_desired := w\<rparr>)"
  have idle2: "stream (noise_player ?s2) = None" using f3 by simp
  have ok2: "\<forall>k. \<not> faults (device ?s2) k" using f3 ok by simp
  show ?thesis
  proof (cases "w \<and> white_noise_var s")
    case True
    let ?s3 = "?s2\<lparr>noise_player := (noise_player ?s2)\<lparr>stream := Some Active\<rparr>,
                     device := (device ?s2)\<lparr>history := StartStream # OpenStream # history (device ?s2)\<rparr>,
                     calls := CallStart # calls ?s2\<rparr>"
    have sy: "sync_noise_state ?s2 = (None, ?s3)"
      using True f3 noise_start_ok[OF idle2 ok2] by (simp add: sync_noise_state_def)
    have res: "start_timer n w s = (None, (snd (after ?s3))\<lparr>timer_id := Some (next_id ?s3)\<rparr>)"
      by (rule start_timer_result[OF st sy])
    show ?thesis
      unfolding res using True f3 pending_cancelled[OF wf] by (simp add: times_def)
  next
    case False
    let ?s3 = "?s2\<lparr>calls := CallStop # calls ?s2\<rparr>"
    have sy: "sync_noise_state ?s2 = (None, ?s3)"
      using False f3 noise_stop_idle[OF idle2] by (auto simp: sync_noise_state_def)
    have res: "start_timer n w s = (None, (snd (after ?s3))\<lparr>timer_id := Some (next_id ?s3)\<rparr>)"
      by (rule start_timer_result[OF st sy])
    show ?thesis
      unfolding res using False f3 pending_cancelled[OF wf] by (simp add: times_def)
  qed
qed

lemma tick_returns:
  assumes "stream (noise_player s) = None \<or>
     (\<not> faults (device s) (length (history (device s))) \<and>
      \<not> faults (device s) (Suc (length (history (device s)))))"
  shows "fst (tick s) = None"
proof (cases "timer_running s \<and> remaining_seconds s \<le> 1")
  case True
  let ?s1 = "(update_timer_label (s\<lparr>remaining_seconds := remaining_seconds s - 1\<rparr>))
        \<lparr>timer_running := False, timer_id := None, noise_desired := False\<rparr>"
  obtain r2 s2 where ns: "noise_stop ?s1 = (r2, s2)" by (cases "noise_stop ?s1")
  have "r2 = None" using noise_stop_returns[of ?s1] assms ns by simp
  then show ?thesis using tick_expire[OF _ _ ns] True by simp
next
  case False
  then show ?thesis using tick_continue[of s] by (cases "timer_running s") (auto simp: tick_def)
qed

lemma run_to_expiry:
  assumes "timer_running s" "pending s = [i]" "remaining_seconds s = int (Suc k)"
      and ok: "\<forall>j. \<not> faults (device s) j"
  shows "timer_running (run_ticks k s) \<and> remaining_seconds (run_ticks k s) = 1 \<and>
         \<not> timer_running (run_ticks (Suc k) s) \<and>
         remaining_seconds (run_ticks (Suc k) s) = 0 \<and>
         pending (run_ticks (Suc k) s) = [] \<and>
         timer_id (run_ticks (Suc k) s) = None \<and>
         \<not> noise_desired (run_ticks (Suc k) s) \<and>
         stream (noise_player (run_ticks (Suc k) s)) = None \<and>
         times CallStop (run_ticks (Suc k) s) = Suc (times CallStop s) \<and>
         times CallDing (run_ticks (Suc k) s) = Suc (times CallDing s)"
proof -
  let ?a = "run_ticks k s"
  have "remaining_seconds s = int k + 1" using assms(3) by simp
  from run_ticks_countdown[OF assms(1,2) this]
  have a: "timer_running ?a" "\<exists>j. pending ?a = [j]" "remaining_seconds ?a = 1"
    "times CallStop ?a = times CallStop s" "times CallDing ?a = times CallDing s"
    "device ?a = device s"
    by simp_all
  then obtain j where j: "pending ?a = [j]" by blast
  let ?t = "?a\<lparr>pending := []\<rparr>"
  obtain r s2 where t: "tick ?t = (r, s2)" by (cases "tick ?t")
  have "fst (tick ?t) = None" using ok a(6) by (intro tick_returns) simp
  with t have r: "r = None" by simp
  have last: "run_ticks (Suc k) s = s2"
    using run_ticks_snoc[of k s] fire_single[OF j] t by simp
  have "timer_running ?t" using a by simp
  from tick_step[OF this t] a r show ?thesis
    unfolding last by (simp add: times_def)
qed

lemma work_interval_run:
  assumes wf: "set (pending s) \<subseteq> set_option (timer_id s)"
      and ok: "\<forall>k. \<not> faults (device s) k"
  shows "fst (start_pomodoro s) = None \<and>
         times CallStop (snd (start_pomodoro s)) =
           times CallStop s + (if white_noise_var s then 1 else 2) \<and>
         timer_running (run_ticks 1499 (snd (start_pomodoro s))) \<and>
         \<not> timer_running (run_ticks 1500 (snd (start_pomodoro s))) \<and>
         remaining_seconds (run_ticks 1500 (snd (start_pomodoro s))) = 0 \<and>
         pending (run_ticks 1500 (snd (start_pomodoro s))) = [] \<and>
         timer_id (run_ticks 1500 (snd (start_pomodoro s))) = None \<and>
         stream (noise_player (run_ticks 1500 (snd (start_pomodoro s)))) = None \<and>
         times CallStop (run_ticks 1500 (snd (start_pomodoro s))) =
           Suc (times CallStop (snd (start_pomodoro s))) \<and>
         times CallDing (run_ticks 1500 (snd (start_pomodoro s))) = Suc (times CallDing s)"
proof -
  let ?s1 = "snd (start_pomodoro s)"
  note st = start_timer_ok[OF wf ok, of POMODORO_DURATION_SECONDS True, folded start_pomodoro_def]
  have "timer_running ?s1" "pending ?s1 = [next_id s]"
       "remaining_seconds ?s1 = int (Suc 1499)" "\<forall>j. \<not> faults (device ?s1) j"
    using st ok by (simp_all add: POMODORO_DURATION_SECONDS_def)
  from run_to_expiry[OF this] st show ?thesis by simp
qed

section \<open>The claims\<close>

text \<open>
  Claim C1. The claim: whatever exception the device layer raises during
  \<^verbatim>\<open>WhiteNoisePlayer.start\<close>, the failure is printed, it does not leave
  \<^verbatim>\<open>_sync_noise_state\<close>, and \<^verbatim>\<open>_stream\<close> is \<^verbatim>\<open>None\<close> afterwards.
  The first two parts hold (\<open>sync_noise_state_guard\<close>), and the handle stays
  \<^verbatim>\<open>None\<close> when the constructor raises (\<open>player_start_open_fails\<close>). The third
  part fails when the constructor returns and \<^verbatim>\<open>self._stream.start()\<close> raises: the
  handle was assigned before the call. On a fresh application whose second device call
  fails, \<^verbatim>\<open>start_pomodoro\<close> returns, the exception is printed, the timer runs, and
  the player keeps a stream that was opened and never started. Switching the noise on
  again makes no device call, since \<^verbatim>\<open>start\<close> sees a handle: the noise stays off
  until some \<^verbatim>\<open>stop\<close> clears the handle.
\<close>

theorem half_open_after_failed_start:
  "player_start (WhiteNoisePlayer_init WHITE_NOISE_PROFILE) (faulty_device 1) =
     (Some (PortAudioError StartStream),
      (WhiteNoisePlayer_init WHITE_NOISE_PROFILE)\<lparr>stream := Some Opened\<rparr>,
      (faulty_device 1)\<lparr>history := [StartStream, OpenStream]\<rparr>) \<and>
   fst (start_pomodoro (PomodoroApp_init (faulty_device 1))) = None \<and>
   stream (noise_player (snd (start_pomodoro (PomodoroApp_init (faulty_device 1))))) = Some Opened \<and>
   printed (snd (start_pomodoro (PomodoroApp_init (faulty_device 1)))) = [PortAudioError StartStream] \<and>
   timer_running (snd (start_pomodoro (PomodoroApp_init (faulty_device 1)))) \<and>
   history (device (snd (toggle True (snd (start_pomodoro (PomodoroApp_init (faulty_device 1))))))) =
     [StartStream, OpenStream] \<and>
   stream (noise_player (snd (toggle True (snd (start_pomodoro (PomodoroApp_init (faulty_device 1))))))) =
     Some Opened"
  by (simp add: start_pomodoro_def start_timer_def stop_timer_internal_def sync_noise_state_def
      noise_stop_def noise_start_def player_stop_def player_start_def dev_call_def after_def
      update_timer_label_def PomodoroApp_init_def WhiteNoisePlayer_init_def faulty_device_def
      toggle_def on_noise_toggle_def Let_def)

text \<open>
  Claim C2, as amended. A tick in a running state decrements
  \<^verbatim>\<open>remaining_seconds\<close> by exactly one. If the result is at most 0 it clears
  \<^verbatim>\<open>timer_running\<close>, \<^verbatim>\<open>noise_desired\<close> and \<^verbatim>\<open>timer_id\<close>, calls
  \<^verbatim>\<open>noise_player.stop()\<close> exactly once, leaves the player without a stream, requests
  the chime exactly once when that call returns, and schedules nothing. Otherwise it
  schedules exactly one tick and makes no stop or chime call. For a Work interval started
  with a device that does not fail and no stale callback pending: the 1500th tick is the
  first to find the timer expired, the 1500 ticks make exactly one stop call and one chime
  request, and nothing is scheduled afterwards. \<^verbatim>\<open>start_pomodoro\<close> itself calls
  \<^verbatim>\<open>noise_player.stop()\<close> once through \<^verbatim>\<open>_stop_timer_internal\<close>, and once more
  through \<^verbatim>\<open>_sync_noise_state\<close> when the noise toggle is off.
\<close>

theorem tick_counts_down:
  "(timer_running s \<and> tick s = (r, s') \<longrightarrow>
      remaining_seconds s' = remaining_seconds s - 1 \<and>
      (remaining_seconds s - 1 \<le> 0 \<longrightarrow>
         \<not> timer_running s' \<and> \<not> noise_desired s' \<and> timer_id s' = None \<and>
         stream (noise_player s') = None \<and>
         times CallStop s' = Suc (times CallStop s) \<and>
         (r = None \<longrightarrow> times CallDing s' = Suc (times CallDing s)) \<and>
         pending s' = pending s \<and> next_id s' = next_id s) \<and>
      (0 < remaining_seconds s - 1 \<longrightarrow>
         r = None \<and> timer_running s' \<and> timer_id s' = Some (next_id s) \<and>
         pending s' = pending s @ [next_id s] \<and>
         times CallStop s' = times CallStop s \<and> times CallDing s' = times CallDing s)) \<and>
   (set (pending s0) \<subseteq> set_option (timer_id s0) \<and> (\<forall>k. \<not> faults (device s0) k) \<longrightarrow>
      fst (start_pomodoro s0) = None \<and>
      times CallStop (snd (start_pomodoro s0)) =
        times CallStop s0 + (if white_noise_var s0 then 1 else 2) \<and>
      timer_running (run_ticks 1499 (snd (start_pomodoro s0))) \<and>
      \<not> timer_running (run_ticks 1500 (snd (start_pomodoro s0))) \<and>
      pending (run_ticks 1500 (snd (start_pomodoro s0))) = [] \<and>
      timer_id (run_ticks 1500 (snd (start_pomodoro s0))) = None \<and>
      times CallStop (run_ticks 1500 (snd (start_pomodoro s0))) =
        Suc (times CallStop (snd (start_pomodoro s0))) \<and>
      times CallDing (run_ticks 1500 (snd (start_pomodoro s0))) = Suc (times CallDing s0))"
proof -
  have "timer_running s \<and> tick s = (r, s') \<longrightarrow>
      remaining_seconds s' = remaining_seconds s - 1 \<and>
      (remaining_seconds s - 1 \<le> 0 \<longrightarrow>
         \<not> timer_running s' \<and> \<not> noise_desired s' \<and> timer_id s' = None \<and>
         stream (noise_player s') = None \<and>
         times CallStop s' = Suc (times CallStop s) \<and>
         (r = None \<longrightarrow> times CallDing s' = Suc (times CallDing s)) \<and>
         pending s' = pending s \<and> next_id s' = next_id s) \<and>
      (0 < remaining_seconds s - 1 \<longrightarrow>
         r = None \<and> timer_running s' \<and> timer_id s' = Some (next_id s) \<and>
         pending s' = pending s @ [next_id s] \<and>
         times CallStop s' = times CallStop s \<and> times CallDing s' = times CallDing s)"
    using tick_step[of s r s'] by simp
  moreover have "set (pending s0) \<subseteq> set_option (timer_id s0) \<and> (\<forall>k. \<not> faults (device s0) k) \<longrightarrow>
      fst (start_pomodoro s0) = None \<and>
      times CallStop (snd (start_pomodoro s0)) =
        times CallStop s0 + (if white_noise_var s0 then 1 else 2) \<and>
      timer_running (run_ticks 1499 (snd (start_pomodoro s0))) \<and>
      \<not> timer_running (run_ticks 1500 (snd (start_pomodoro s0))) \<and>
      pending (run_ticks 1500 (snd (start_pomodoro s0))) = [] \<and>
      timer_id (run_ticks 1500 (snd (start_pomodoro s0))) = None \<and>
      times CallStop (run_ticks 1500 (snd (start_pomodoro s0))) =
        Suc (times CallStop (snd (start_pomodoro s0))) \<and>
      times CallDing (run_ticks 1500 (snd (start_pomodoro s0))) = Suc (times CallDing s0)"
    using work_interval_run[of s0] by simp
  ultimately show ?thesis by (rule conjI)
qed

text \<open>
  The hypotheses of C2 hold at an interval with one second left (the tick expires it), at
  one with 742 seconds left (the tick schedules the next) and at the state the constructor
  builds.
\<close>

theorem tick_counts_down_witness:
  "timer_running (mid_interval 1 quiet_device) \<and>
   remaining_seconds (mid_interval 1 quiet_device) - 1 \<le> 0 \<and>
   timer_running (mid_interval 742 quiet_device) \<and>
   0 < remaining_seconds (mid_interval 742 quiet_device) - 1 \<and>
   set (pending (PomodoroApp_init quiet_device)) \<subseteq> set_option (timer_id (PomodoroApp_init quiet_device)) \<and>
   (\<forall>k. \<not> faults (device (PomodoroApp_init quiet_device)) k) \<and>
   remaining_seconds (snd (tick (mid_interval 1 quiet_device))) = 0 \<and>
   \<not> timer_running (snd (tick (mid_interval 1 quiet_device))) \<and>
   times CallStop (snd (tick (mid_interval 1 quiet_device))) = 2 \<and>
   times CallDing (snd (tick (mid_interval 1 quiet_device))) = 1 \<and>
   remaining_seconds (snd (tick (mid_interval 742 quiet_device))) = 741 \<and>
   timer_running (snd (tick (mid_interval 742 quiet_device))) \<and>
   pending (snd (tick (mid_interval 742 quiet_device))) = [0, 1] \<and>
   \<not> timer_running (run_ticks 1500 (snd (start_pomodoro (PomodoroApp_init quiet_device)))) \<and>
   times CallDing (run_ticks 1500 (snd (start_pomodoro (PomodoroApp_init quiet_device)))) = 1"
  using tick_counts_down [of "mid_interval 1 quiet_device" "fst (tick (mid_interval 1 quiet_device))"
      "snd (tick (mid_interval 1 quiet_device))" "PomodoroApp_init quiet_device"]
    tick_counts_down [of "mid_interval 742 quiet_device" "fst (tick (mid_interval 742 quiet_device))"
      "snd (tick (mid_interval 742 quiet_device))" "PomodoroApp_init quiet_device"]
    tick_returns [of "mid_interval 1 quiet_device"]
  by (simp add: mid_interval_def PomodoroApp_init_def quiet_device_def times_def playing_def)

text \<open>
  The claim C2 as first stated counts exactly one stop call from the start of the Work
  interval to its expiry. On a fresh application with the toggle on and a device that
  never fails there are two: one made by \<^verbatim>\<open>start_pomodoro\<close>, one by the last tick.
\<close>

theorem work_interval_two_stops:
  "times CallStop (PomodoroApp_init quiet_device) = 0 \<and>
   times CallStop (run_ticks 1500 (snd (start_pomodoro (PomodoroApp_init quiet_device)))) = 2"
  using work_interval_run [of "PomodoroApp_init quiet_device"]
  by (simp add: PomodoroApp_init_def quiet_device_def times_def)

text \<open>
  Claim C3. The claim: calling \<^verbatim>\<open>WhiteNoisePlayer.start\<close> twice in a row equals
  calling it once, no second stream is opened, and a stream handle exists exactly when the
  engine is Running. The first two parts hold in every state (\<open>player_start_twice\<close>,
  \<open>player_start_noop\<close>), and a start that returns from a state with no handle or an
  active stream leaves an active stream (\<open>player_start_keeps_active\<close>). The third part
  is broken by \<^verbatim>\<open>start\<close> itself when the constructor returns and
  \<^verbatim>\<open>self._stream.start()\<close> raises: from a player without a handle the first call
  leaves a handle to a stream that was never started, and the second call, made once the
  caller has caught the exception, returns normally, makes no device call and leaves
  that handle in place. A handle exists and nothing is running.
\<close>

theorem start_leaves_unstarted_handle:
  "stream (WhiteNoisePlayer_init WHITE_NOISE_PROFILE) = None \<and>
   player_start (WhiteNoisePlayer_init WHITE_NOISE_PROFILE) (faulty_device 1) =
     (Some (PortAudioError StartStream),
      (WhiteNoisePlayer_init WHITE_NOISE_PROFILE)\<lparr>stream := Some Opened\<rparr>,
      (faulty_device 1)\<lparr>history := [StartStream, OpenStream]\<rparr>) \<and>
   player_start ((WhiteNoisePlayer_init WHITE_NOISE_PROFILE)\<lparr>stream := Some Opened\<rparr>)
       ((faulty_device 1)\<lparr>history := [StartStream, OpenStream]\<rparr>) =
     (None,
      (WhiteNoisePlayer_init WHITE_NOISE_PROFILE)\<lparr>stream := Some Opened\<rparr>,
      (faulty_device 1)\<lparr>history := [StartStream, OpenStream]\<rparr>) \<and>
   stream ((WhiteNoisePlayer_init WHITE_NOISE_PROFILE)\<lparr>stream := Some Opened\<rparr>) \<noteq> Some Active \<and>
   then_call player_start player_start (WhiteNoisePlayer_init WHITE_NOISE_PROFILE) (faulty_device 1) =
     player_start (WhiteNoisePlayer_init WHITE_NOISE_PROFILE) (faulty_device 1)"
  by (simp add: player_start_def then_call_def dev_call_def WhiteNoisePlayer_init_def
      faulty_device_def)

text \<open>
  Claim C4. In a running interval with \<open>r > 0\<close> seconds left, switching the noise
  toggle off leaves \<^verbatim>\<open>remaining_seconds\<close>, \<^verbatim>\<open>timer_running\<close>,
  \<^verbatim>\<open>timer_id\<close>, the scheduled callbacks and the label as they were, and stops the
  player within the handler: \<^verbatim>\<open>noise_player.stop()\<close> is called once, and when the
  player holds a stream the device receives \<^verbatim>\<open>stop()\<close> and then, unless that
  raised, \<^verbatim>\<open>close()\<close> for it; a player without a stream makes no device call.
  The handle is \<^verbatim>\<open>None\<close> when the handler ends, whether it returns or raises, and
  it returns when neither device call raises.
\<close>

theorem toggle_off:
  assumes "timer_running s" "remaining_seconds s = r" "0 < r" "toggle False s = (e, s')"
  shows "remaining_seconds s' = r \<and> timer_running s' \<and> timer_id s' = timer_id s \<and>
         pending s' = pending s \<and> next_id s' = next_id s \<and> timer_var s' = timer_var s \<and>
         noise_desired s' = noise_desired s \<and>
         stream (noise_player s') = None \<and> calls s' = CallStop # calls s \<and>
         history (device s') =
           (if stream (noise_player s) = None then history (device s)
            else if faults (device s) (length (history (device s)))
              then StopStream # history (device s)
              else CloseStream # StopStream # history (device s)) \<and>
         faults (device s') = faults (device s) \<and>
         (stream (noise_player s) \<noteq> None \<and>
          \<not> faults (device s) (length (history (device s))) \<and>
          \<not> faults (device s) (Suc (length (history (device s)))) \<longrightarrow> e = None)"
proof -
  from assms(4) have ns: "noise_stop (s\<lparr>white_noise_var := False\<rparr>) = (e, s')"
    by (simp add: toggle_def on_noise_toggle_def sync_noise_state_def)
  from noise_stop_fields[OF ns] noise_stop_history[OF ns] noise_stop_device[OF ns] assms(1,2)
  show ?thesis by simp
qed

text \<open>
  C4 at 742 seconds left with noise playing: the stream is stopped and closed on the
  device and the countdown is untouched.
\<close>

theorem toggle_off_witness:
  "timer_running (mid_interval 742 quiet_device) \<and>
   remaining_seconds (mid_interval 742 quiet_device) = 742 \<and> (0::int) < 742 \<and>
   stream (noise_player (mid_interval 742 quiet_device)) = Some Active \<and>
   history (device (mid_interval 742 quiet_device)) = [] \<and>
   fst (toggle False (mid_interval 742 quiet_device)) = None \<and>
   remaining_seconds (snd (toggle False (mid_interval 742 quiet_device))) = 742 \<and>
   timer_running (snd (toggle False (mid_interval 742 quiet_device))) \<and>
   timer_id (snd (toggle False (mid_interval 742 quiet_device))) = Some 0 \<and>
   pending (snd (toggle False (mid_interval 742 quiet_device))) = [0] \<and>
   stream (noise_player (snd (toggle False (mid_interval 742 quiet_device)))) = None \<and>
   history (device (snd (toggle False (mid_interval 742 quiet_device)))) = [CloseStream, StopStream]"
  using toggle_off [of "mid_interval 742 quiet_device" 742
      "fst (toggle False (mid_interval 742 quiet_device))"
      "snd (toggle False (mid_interval 742 quiet_device))"]
  by (simp add: mid_interval_def PomodoroApp_init_def quiet_device_def playing_def)

text \<open>
  Claim C7. \<^verbatim>\<open>_stop_timer_internal\<close>, from every state and with every device:
  \<^verbatim>\<open>timer_running\<close> and \<^verbatim>\<open>noise_desired\<close> are false, \<^verbatim>\<open>timer_id\<close> is
  \<^verbatim>\<open>None\<close> and the tick it named is no longer scheduled,
  \<^verbatim>\<open>noise_player.stop()\<close> has been called once and the player holds no stream. When
  the method returns, \<^verbatim>\<open>remaining_seconds\<close> is 0 and the label reads 00:00. It
  returns whenever the player was idle or the device's \<^verbatim>\<open>stop\<close> and
  \<^verbatim>\<open>close\<close> do not raise; the two assignments after the call of
  \<^verbatim>\<open>noise_player.stop()\<close> are not reached when that call raises.
\<close>

theorem cancel_resets:
  assumes "stop_timer_internal s = (r, s')"
  shows "\<not> timer_running s' \<and> \<not> noise_desired s' \<and> timer_id s' = None \<and>
         (\<forall>i. timer_id s = Some i \<longrightarrow> i \<notin> set (pending s')) \<and>
         times CallStop s' = Suc (times CallStop s) \<and>
         stream (noise_player s') = None \<and>
         (r = None \<longrightarrow> remaining_seconds s' = 0 \<and> timer_var s' = ''00:00'') \<and>
         (stream (noise_player s) = None \<or>
            (\<not> faults (device s) (length (history (device s))) \<and>
             \<not> faults (device s) (Suc (length (history (device s))))) \<longrightarrow> r = None)"
proof -
  obtain r0 s3 where ns: "noise_stop (cancelled s) = (r0, s3)"
    by (cases "noise_stop (cancelled s)")
  note f = noise_stop_fields[OF ns] cancelled_fields[of s]
  have r: "r = r0"
    using ns assms by (cases r0) (simp_all add: stop_timer_internal_unfold)
  have s': "s' = (if r0 = None then update_timer_label (s3\<lparr>remaining_seconds := 0\<rparr>) else s3)"
    using ns assms by (cases r0) (auto simp: stop_timer_internal_unfold)
  have "stream (noise_player s) = None \<or>
            (\<not> faults (device s) (length (history (device s))) \<and>
             \<not> faults (device s) (Suc (length (history (device s))))) \<longrightarrow> r = None"
    using noise_stop_returns[of "cancelled s"] ns r by (simp add: cancelled_fields)
  moreover have "r = None \<longrightarrow> remaining_seconds s' = 0 \<and> timer_var s' = ''00:00''"
    using r s' by (simp add: label_zero)
  moreover have "\<not> timer_running s' \<and> \<not> noise_desired s' \<and> timer_id s' = None \<and>
      stream (noise_player s') = None"
    using s' f by simp
  moreover have "times CallStop s' = Suc (times CallStop s)"
    using s' f by (simp add: times_def)
  moreover have "\<forall>i. timer_id s = Some i \<longrightarrow> i \<notin> set (pending s')"
    using s' f by simp
  ultimately show ?thesis by blast
qed

text \<open>
  C7 at 742 seconds left with noise playing and a device that does not fail.
\<close>

theorem cancel_resets_witness:
  "remaining_seconds (mid_interval 742 quiet_device) = 742 \<and>
   stream (noise_player (mid_interval 742 quiet_device)) = Some Active \<and>
   fst (stop_timer_internal (mid_interval 742 quiet_device)) = None \<and>
   remaining_seconds (snd (stop_timer_internal (mid_interval 742 quiet_device))) = 0 \<and>
   timer_var (snd (stop_timer_internal (mid_interval 742 quiet_device))) = ''00:00'' \<and>
   \<not> timer_running (snd (stop_timer_internal (mid_interval 742 quiet_device))) \<and>
   timer_id (snd (stop_timer_internal (mid_interval 742 quiet_device))) = None \<and>
   0 \<notin> set (pending (snd (stop_timer_internal (mid_interval 742 quiet_device)))) \<and>
   stream (noise_player (snd (stop_timer_internal (mid_interval 742 quiet_device)))) = None"
  using cancel_resets [of "mid_interval 742 quiet_device"
      "fst (stop_timer_internal (mid_interval 742 quiet_device))"
      "snd (stop_timer_internal (mid_interval 742 quiet_device))"]
  by (simp add: mid_interval_def PomodoroApp_init_def quiet_device_def playing_def)

text \<open>
  Claim C8. After \<^verbatim>\<open>start_break\<close>, from every state and so for either value of
  the noise toggle, and after every sequence of ticks and toggle events that follows,
  \<^verbatim>\<open>noise_player.start()\<close> has been called as often as before the break started,
  \<^verbatim>\<open>noise_desired\<close> is false and the player holds no stream.
\<close>

theorem break_never_starts_noise:
  "times CallStart (run_events es (snd (start_break s))) = times CallStart s \<and>
   \<not> noise_desired (run_events es (snd (start_break s))) \<and>
   stream (noise_player (run_events es (snd (start_break s)))) = None"
  using run_events_silent[OF start_break_silent, of s es] by (simp add: silent_def)

text \<open>
  Claim C9. A tick that fires when \<^verbatim>\<open>timer_running\<close> is false returns at once
  and changes nothing: not the remaining seconds, the label, \<^verbatim>\<open>timer_id\<close>, the
  player or the device, and it schedules nothing.
\<close>

theorem stale_tick: "\<not> timer_running s \<Longrightarrow> tick s = (None, s)"
  by (simp add: tick_def)

text \<open>
  C9 at the state the constructor builds.
\<close>

theorem stale_tick_witness:
  "\<not> timer_running (PomodoroApp_init quiet_device) \<and>
   tick (PomodoroApp_init quiet_device) = (None, PomodoroApp_init quiet_device)"
  using stale_tick [of "PomodoroApp_init quiet_device"]
  by (simp add: PomodoroApp_init_def)

text \<open>
  Claim C10. When \<^verbatim>\<open>WhiteNoisePlayer.stop\<close> ends, by returning or by an
  exception of the device's \<^verbatim>\<open>stop\<close> or \<^verbatim>\<open>close\<close>, the handle is
  \<^verbatim>\<open>None\<close>; a start that follows opens and starts a new stream when the device
  lets it.
\<close>

theorem stop_clears_handle:
  assumes "player_stop p d = (r, p1, d1)"
  shows "stream p1 = None \<and>
         (\<not> faults d1 (length (history d1)) \<and> \<not> faults d1 (Suc (length (history d1))) \<longrightarrow>
          player_start p1 d1 =
            (None, p1\<lparr>stream := Some Active\<rparr>,
             d1\<lparr>history := StartStream # OpenStream # history d1\<rparr>))"
  using player_stop_clears[of p d] player_start_ok[of p1 d1] assms by simp

text \<open>
  C10 at a playing stream whose \<^verbatim>\<open>stop\<close> raises.
\<close>

theorem stop_clears_handle_witness:
  "player_stop playing (faulty_device 0) =
     (Some (PortAudioError StopStream), playing\<lparr>stream := None\<rparr>,
      (faulty_device 0)\<lparr>history := [StopStream]\<rparr>) \<and>
   \<not> faults ((faulty_device 0)\<lparr>history := [StopStream]\<rparr>) 1 \<and>
   \<not> faults ((faulty_device 0)\<lparr>history := [StopStream]\<rparr>) 2 \<and>
   stream (playing\<lparr>stream := None\<rparr>) = None \<and>
   player_start (playing\<lparr>stream := None\<rparr>) ((faulty_device 0)\<lparr>history := [StopStream]\<rparr>) =
     (None, playing, (faulty_device 0)\<lparr>history := [StartStream, OpenStream, StopStream]\<rparr>)"
  using stop_clears_handle [of playing "faulty_device 0" "Some (PortAudioError StopStream)"
      "playing\<lparr>stream := None\<rparr>" "(faulty_device 0)\<lparr>history := [StopStream]\<rparr>"]
  by (simp add: playing_def faulty_device_def player_stop_def dev_call_def)

end
